theory Spec2Isabelle
  imports Complex_Main "HOL-Library.Sublist" "HOL-Library.Multiset"
begin

text \<open>
  A shallow embedding of the risk dashboard \<open>app.py\<close>: the login check, the fetch of one
  series, the master table, inversion detection, risk scoring, scenario determination and
  the extraction of a section from the generated text, each translated from the source
  with its line numbers, followed by the properties proved of them.
\<close>

section \<open>Observation values\<close>

text \<open>
  Every observation of the dashboard is a Python float. A cell is either absent (NaN,
  \<open>None\<close> here) or a number. A double stands for the short decimal it is written as, the
  way the provider reports its values and the source writes its thresholds: two such
  decimals compare as their doubles do. The rounding of a float subtraction is not
  modelled. Python's comparison operators answer False whenever an operand is NaN.
\<close>

type_synonym cell = "real option"

definition flt :: "cell \<Rightarrow> real \<Rightarrow> bool" where
  "flt c t = (case c of None \<Rightarrow> False | Some v \<Rightarrow> v < t)"

definition fgt :: "cell \<Rightarrow> real \<Rightarrow> bool" where
  "fgt c t = (case c of None \<Rightarrow> False | Some v \<Rightarrow> v > t)"

definition fge :: "cell \<Rightarrow> real \<Rightarrow> bool" where
  "fge c t = (case c of None \<Rightarrow> False | Some v \<Rightarrow> v \<ge> t)"

definition isna :: "cell \<Rightarrow> bool" where
  "isna c = (case c of None \<Rightarrow> True | Some v \<Rightarrow> False)"

section \<open>Scenario determination\<close>

text \<open>\<open>determine_scenario(yield_curve, policy_spread)\<close>, lines 333 to 345.\<close>

definition determine_scenario :: "cell \<Rightarrow> cell \<Rightarrow> int" where
  "determine_scenario yield_curve policy_spread =
     (let inverted = flt yield_curve 0;
          easing_expected = flt policy_spread 0
      in if inverted \<and> \<not> easing_expected then 1
         else if inverted \<and> easing_expected then 2
         else if \<not> inverted \<and> \<not> easing_expected then 3
         else 4)"

section \<open>The master table\<close>

text \<open>
  A pandas DataFrame is a list of dated rows under a list of column names; a row gives a
  cell for each column name, and only the names listed in \<open>columns\<close> belong to the table.
  Dates are day numbers. Reading a column that the table does not have raises KeyError,
  and taking the last row of an empty table raises IndexError.
\<close>

type_synonym date = nat

type_synonym row = "string \<Rightarrow> cell"

record dataframe =
  columns :: "string list"
  rows :: "(date \<times> row) list"

datatype error = IndexError | KeyError string | ValueError | ProviderError string

definition bind_err :: "error + 'a \<Rightarrow> ('a \<Rightarrow> error + 'b) \<Rightarrow> error + 'b" where
  "bind_err m f = (case m of Inl e \<Rightarrow> Inl e | Inr x \<Rightarrow> f x)"

text \<open>\<open>df.iloc[-1]\<close>\<close>

definition iloc_last :: "dataframe \<Rightarrow> error + row" where
  "iloc_last df = (if rows df = [] then Inl IndexError else Inr (snd (last (rows df))))"

text \<open>\<open>latest[name]\<close> on a row of the table \<open>df\<close>\<close>

definition getitem :: "dataframe \<Rightarrow> row \<Rightarrow> string \<Rightarrow> error + cell" where
  "getitem df r name = (if name \<in> set (columns df) then Inr (r name) else Inl (KeyError name))"

text \<open>\<open>df[name].dropna()\<close>, for a column the table has: the present values in row order\<close>

definition column_dropna :: "dataframe \<Rightarrow> string \<Rightarrow> real list" where
  "column_dropna df name = List.map_filter (\<lambda>(d, r). r name) (rows df)"

section \<open>Composite risk scoring\<close>

text \<open>
  The warnings of \<open>assess_macro_risk\<close> are fixed message strings, one for each branch
  that adds to the score. They are named here after the branch, in the order of the source
  (lines 244, 247, 252, 255, 261, 264, 270, 273, 282, 285, 294, 297, 306, 309).
\<close>

datatype warning =
    Curve_inverted | Curve_flattening
  | Yield_high | Yield_rising
  | Spread_spike | Spread_widening
  | Gap_excessive | Gap_widening
  | Card_above_5 | Card_rising
  | CRE_above_3 | CRE_rising
  | Auto_above_3 | Auto_rising

text \<open>
  The four labels of lines 313 to 322; each is the source's label without its leading
  colour sign.
\<close>

datatype level = CRITICAL_RISK | HIGH_RISK | MEDIUM_RISK | LOW_RISK

record risk_info =
  score :: int
  level :: level
  color :: string
  warnings :: "warning list"
  latest :: row

text \<open>The running pair \<open>(risk_score, warnings_)\<close> that the seven blocks update in turn.\<close>

type_synonym tally = "int \<times> warning list"

definition bump :: "int \<Rightarrow> warning \<Rightarrow> tally \<Rightarrow> tally" where
  "bump n w t = (fst t + n, snd t @ [w])"

text \<open>Lines 241 to 247.\<close>

definition score_yield_curve :: "cell \<Rightarrow> tally \<Rightarrow> tally" where
  "score_yield_curve yc t =
     (if flt yc 0 then bump 3 Curve_inverted t
      else if flt yc 0.3 then bump 1 Curve_flattening t
      else t)"

text \<open>Lines 250 to 255.\<close>

definition score_dgs10 :: "cell \<Rightarrow> tally \<Rightarrow> tally" where
  "score_dgs10 v t =
     (if fgt v 4.5 then bump 2 Yield_high t
      else if fgt v 4.0 then bump 1 Yield_rising t
      else t)"

text \<open>Lines 258 to 264.\<close>

definition score_hy_spread :: "cell \<Rightarrow> tally \<Rightarrow> tally" where
  "score_hy_spread hy t =
     (if fgt hy 5.0 then bump 3 Spread_spike t
      else if fgt hy 4.5 then bump 2 Spread_widening t
      else t)"

text \<open>Lines 267 to 273.\<close>

definition score_rate_gap :: "cell \<Rightarrow> tally \<Rightarrow> tally" where
  "score_rate_gap rg t =
     (if fgt rg 1.0 then bump 2 Gap_excessive t
      else if fgt rg 0.5 then bump 1 Gap_widening t
      else t)"

text \<open>Lines 276 to 285.\<close>

definition score_cc_delinq :: "dataframe \<Rightarrow> tally \<Rightarrow> tally" where
  "score_cc_delinq df t =
     (if ''CC_DELINQ'' \<in> set (columns df) then
        (let cc = column_dropna df ''CC_DELINQ'' in
         if length cc > 0 then
           (let cc_val = last cc in
            if cc_val > 5.0 then bump 3 Card_above_5 t
            else if cc_val > 3.5 then bump 2 Card_rising t
            else t)
         else t)
      else t)"

text \<open>Lines 288 to 297.\<close>

definition score_cre_delinq :: "dataframe \<Rightarrow> tally \<Rightarrow> tally" where
  "score_cre_delinq df t =
     (if ''CRE_DELINQ_ALL'' \<in> set (columns df) then
        (let cre = column_dropna df ''CRE_DELINQ_ALL'' in
         if length cre > 0 then
           (let cre_val = last cre in
            if cre_val > 3.0 then bump 3 CRE_above_3 t
            else if cre_val > 2.0 then bump 2 CRE_rising t
            else t)
         else t)
      else t)"

text \<open>Lines 300 to 309.\<close>

definition score_auto_delinq :: "dataframe \<Rightarrow> tally \<Rightarrow> tally" where
  "score_auto_delinq df t =
     (if ''AUTO_DELINQ'' \<in> set (columns df) then
        (let au = column_dropna df ''AUTO_DELINQ'' in
         if length au > 0 then
           (let au_val = last au in
            if au_val > 3.0 then bump 2 Auto_above_3 t
            else if au_val > 2.5 then bump 1 Auto_rising t
            else t)
         else t)
      else t)"

text \<open>Lines 312 to 323.\<close>

definition risk_level :: "int \<Rightarrow> level \<times> string" where
  "risk_level risk_score =
     (if risk_score \<ge> 10 then (CRITICAL_RISK, ''darkred'')
      else if risk_score \<ge> 7 then (HIGH_RISK, ''red'')
      else if risk_score \<ge> 4 then (MEDIUM_RISK, ''orange'')
      else (LOW_RISK, ''green''))"

text \<open>
  \<open>assess_macro_risk(df)\<close>, lines 234 to 331. The four reads of the latest row happen in
  the order of the source, each before the block that uses it, so the first missing column
  is the one the KeyError names.
\<close>

definition assess_macro_risk :: "dataframe \<Rightarrow> error + risk_info" where
  "assess_macro_risk df =
     bind_err (iloc_last df) (\<lambda>latest_row.
     bind_err (getitem df latest_row ''YIELD_CURVE'') (\<lambda>yc.
     let t1 = score_yield_curve yc (0, []) in
     bind_err (getitem df latest_row ''DGS10'') (\<lambda>dgs10.
     let t2 = score_dgs10 dgs10 t1 in
     bind_err (getitem df latest_row ''HY_SPREAD'') (\<lambda>hy.
     let t3 = score_hy_spread hy t2 in
     bind_err (getitem df latest_row ''RATE_GAP'') (\<lambda>rg.
     let t4 = score_rate_gap rg t3;
         t5 = score_cc_delinq df t4;
         t6 = score_cre_delinq df t5;
         t7 = score_auto_delinq df t6;
         risk_score = fst t7
     in Inr \<lparr> score = risk_score,
              level = fst (risk_level risk_score),
              color = snd (risk_level risk_score),
              warnings = snd t7,
              latest = latest_row \<rparr>)))))"

section \<open>The scoring rules as the specification lists them\<close>

text \<open>
  The specification gives seven rules, each a pair of an increment and the warnings it
  emits: the first threshold that holds decides, and a rule that does not trigger gives
  \<open>(0, [])\<close>. The three delinquency rules read the latest value of their column that is
  not absent, when the table has the column and the column has any data.
\<close>

definition spec_rule_curve :: "cell \<Rightarrow> int \<times> warning list" where
  "spec_rule_curve v =
     (if flt v 0 then (3, [Curve_inverted])
      else if flt v 0.3 then (1, [Curve_flattening]) else (0, []))"

definition spec_rule_yield :: "cell \<Rightarrow> int \<times> warning list" where
  "spec_rule_yield v =
     (if fgt v 4.5 then (2, [Yield_high])
      else if fgt v 4.0 then (1, [Yield_rising]) else (0, []))"

definition spec_rule_spread :: "cell \<Rightarrow> int \<times> warning list" where
  "spec_rule_spread v =
     (if fgt v 5.0 then (3, [Spread_spike])
      else if fgt v 4.5 then (2, [Spread_widening]) else (0, []))"

definition spec_rule_gap :: "cell \<Rightarrow> int \<times> warning list" where
  "spec_rule_gap v =
     (if fgt v 1.0 then (2, [Gap_excessive])
      else if fgt v 0.5 then (1, [Gap_widening]) else (0, []))"

definition spec_rule_card :: "cell \<Rightarrow> int \<times> warning list" where
  "spec_rule_card v =
     (if fgt v 5.0 then (3, [Card_above_5])
      else if fgt v 3.5 then (2, [Card_rising]) else (0, []))"

definition spec_rule_cre :: "cell \<Rightarrow> int \<times> warning list" where
  "spec_rule_cre v =
     (if fgt v 3.0 then (3, [CRE_above_3])
      else if fgt v 2.0 then (2, [CRE_rising]) else (0, []))"

definition spec_rule_auto :: "cell \<Rightarrow> int \<times> warning list" where
  "spec_rule_auto v =
     (if fgt v 3.0 then (2, [Auto_above_3])
      else if fgt v 2.5 then (1, [Auto_rising]) else (0, []))"

definition latest_present :: "dataframe \<Rightarrow> string \<Rightarrow> cell" where
  "latest_present df name =
     (if name \<in> set (columns df) then
        (let present = filter (\<lambda>c. \<not> isna c) (map (\<lambda>dr. snd dr name) (rows df))
         in if present = [] then None else last present)
      else None)"

definition spec_rules :: "dataframe \<Rightarrow> row \<Rightarrow> (int \<times> warning list) list" where
  "spec_rules df r =
     [spec_rule_curve (r ''YIELD_CURVE''),
      spec_rule_yield (r ''DGS10''),
      spec_rule_spread (r ''HY_SPREAD''),
      spec_rule_gap (r ''RATE_GAP''),
      spec_rule_card (latest_present df ''CC_DELINQ''),
      spec_rule_cre (latest_present df ''CRE_DELINQ_ALL''),
      spec_rule_auto (latest_present df ''AUTO_DELINQ'')]"

text \<open>The rules that are left when rule number \<open>i\<close> (counted from 0) is taken out.\<close>

definition without_rule :: "nat \<Rightarrow> 'a list \<Rightarrow> 'a list" where
  "without_rule i xs = take i xs @ drop (Suc i) xs"

text \<open>The four columns that \<open>assess_macro_risk\<close> reads from the latest row.\<close>

definition has_scored_columns :: "dataframe \<Rightarrow> bool" where
  "has_scored_columns df =
     (''YIELD_CURVE'' \<in> set (columns df) \<and> ''DGS10'' \<in> set (columns df)
      \<and> ''HY_SPREAD'' \<in> set (columns df) \<and> ''RATE_GAP'' \<in> set (columns df))"

text \<open>The cells of the columns in \<open>S\<close> made absent in a row.\<close>

definition blank :: "string set \<Rightarrow> row \<Rightarrow> row" where
  "blank S r = (\<lambda>name. if name \<in> S then None else r name)"

text \<open>
  The latest row of the specification's example, in a table whose three delinquency
  columns hold no value, and a two-row table whose credit-card delinquency is reported on
  the first date only.
\<close>

definition example_latest :: row where
  "example_latest =
     (\<lambda>name. None)(''YIELD_CURVE'' := Some (- 0.1), ''DGS10'' := Some 4.6,
                  ''HY_SPREAD'' := Some 5.2, ''RATE_GAP'' := Some 1.2)"

definition example_df :: dataframe where
  "example_df =
     \<lparr> columns = [''YIELD_CURVE'', ''DGS10'', ''HY_SPREAD'', ''RATE_GAP'',
                  ''CC_DELINQ'', ''CRE_DELINQ_ALL'', ''AUTO_DELINQ''],
       rows = [(0, example_latest)] \<rparr>"

definition two_row_df :: dataframe where
  "two_row_df =
     \<lparr> columns = [''DGS10'', ''CC_DELINQ'', ''YIELD_CURVE'', ''HY_SPREAD'', ''RATE_GAP''],
       rows = [(0, (\<lambda>name. None)(''CC_DELINQ'' := Some 5.5)),
               (1, (\<lambda>name. None)(''YIELD_CURVE'' := Some 0.2, ''DGS10'' := Some 4.2,
                                    ''HY_SPREAD'' := Some 4.6, ''RATE_GAP'' := None))] \<rparr>"

section \<open>Inversion detection\<close>

text \<open>
  A pandas Series is its observations in index order, each a date
  with a cell. \<open>find_inversion_periods(yield_curve_series)\<close>, lines 213 to 232, keeps three
  variables in its loop: the list \<open>inversions\<close>, the flag \<open>in_inv\<close> and \<open>start\<close>, which is
  Python's None until the first interval opens. \<open>scan_step\<close> is the loop body, \<open>scan_loop\<close>
  the loop; reading \<open>index[-1]\<close> of an empty Series would raise IndexError.
\<close>

type_synonym series = "(date \<times> cell) list"

type_synonym scan = "(date option \<times> date) list \<times> bool \<times> date option"

fun scan_step :: "scan \<Rightarrow> date \<times> cell \<Rightarrow> scan" where
  "scan_step (inversions, in_inv, start) (date, val) =
     (if isna val then (inversions, in_inv, start)
      else if flt val 0 \<and> \<not> in_inv then (inversions, True, Some date)
      else if fge val 0 \<and> in_inv then (inversions @ [(start, date)], False, start)
      else (inversions, in_inv, start))"

fun scan_loop :: "scan \<Rightarrow> series \<Rightarrow> scan" where
  "scan_loop st [] = st"
| "scan_loop st (x # xs) = scan_loop (scan_step st x) xs"

definition find_inversion_periods :: "series \<Rightarrow> error + (date option \<times> date) list" where
  "find_inversion_periods yield_curve_series =
     (case scan_loop ([], False, None) yield_curve_series of
        (inversions, in_inv, start) \<Rightarrow>
          if in_inv then
            (if yield_curve_series = [] then Inl IndexError
             else Inr (inversions @ [(start, fst (last yield_curve_series))]))
          else Inr inversions)"

text \<open>
  The specification's reading of inversion detection: over the observations that are not
  absent, in order, an interval opens at the first strictly negative value seen outside an
  interval and closes at the next value that is at least 0; an interval still open at the
  end closes at the last date of the whole series.
\<close>

fun present :: "series \<Rightarrow> (date \<times> real) list" where
  "present [] = []"
| "present ((d, None) # xs) = present xs"
| "present ((d, Some v) # xs) = (d, v) # present xs"

fun spec_outside :: "date \<Rightarrow> (date \<times> real) list \<Rightarrow> (date \<times> date) list"
  and spec_inside :: "date \<Rightarrow> date \<Rightarrow> (date \<times> real) list \<Rightarrow> (date \<times> date) list" where
  "spec_outside final [] = []"
| "spec_outside final ((d, v) # xs) =
     (if v < 0 then spec_inside d final xs else spec_outside final xs)"
| "spec_inside opened final [] = [(opened, final)]"
| "spec_inside opened final ((d, v) # xs) =
     (if v \<ge> 0 then (opened, d) # spec_outside final xs else spec_inside opened final xs)"

definition spec_inversions :: "series \<Rightarrow> (date \<times> date) list" where
  "spec_inversions s = (if s = [] then [] else spec_outside (fst (last s)) (present s))"

text \<open>The start and end dates of a list of intervals, in order.\<close>

definition endpoints :: "(date \<times> date) list \<Rightarrow> date list" where
  "endpoints ps = concat (map (\<lambda>(a, b). [a, b]) ps)"

text \<open>The values 0.5, -0.1, -0.2, 0.3, -0.05 on the consecutive dates 1 to 5.\<close>

definition example_series :: series where
  "example_series = [(1, Some 0.5), (2, Some (- 0.1)), (3, Some (- 0.2)), (4, Some 0.3), (5, Some (- 0.05))]"

text \<open>Lines 229 and 230 for a series whose last date is \<open>final\<close>.\<close>

definition finish :: "date \<Rightarrow> scan \<Rightarrow> (date option \<times> date) list" where
  "finish final st = (case st of (inversions, in_inv, start) \<Rightarrow>
      if in_inv then inversions @ [(start, final)] else inversions)"

section \<open>Section extraction\<close>

















section \<open>Authentication gate\<close>

text \<open>
  The Streamlit state that \<open>check_password\<close> touches: the session's dictionary of flags and
  the secrets store. Reading the secrets raises when the store cannot be loaded; a store
  that loads may or may not have the table \<open>passwords\<close> from user names to passwords.
\<close>

datatype secrets_store =
    Unreadable string
  | Secrets "(string \<rightharpoonup> string) option"

record streamlit =
  session_state :: "string \<rightharpoonup> bool"
  secrets :: secrets_store

text \<open>What the user puts into the login form of lines 32 to 35.\<close>

record credentials =
  username :: string
  password :: string
  submit_btn :: bool

text \<open>
  The three error messages of lines 44, 46 and 48, and the two ways the call ends: it
  returns a boolean, or \<open>st.rerun()\<close> abandons the run and asks for the script to be run
  again, which no \<open>except Exception\<close> intercepts.
\<close>

datatype login_error = Wrong_password | No_such_user | Login_failure string

datatype ending = Return bool | Rerun

record gate =
  state :: streamlit
  prompted :: bool
  errors :: "login_error list"
  ending :: ending

text \<open>\<open>st.session_state.get('password_correct', False)\<close>\<close>

definition password_correct :: "streamlit \<Rightarrow> bool" where
  "password_correct st =
     (case session_state st ''password_correct'' of None \<Rightarrow> False | Some b \<Rightarrow> b)"

text \<open>\<open>check_password()\<close>, lines 25 to 50, for the form input \<open>f\<close>.\<close>

definition check_password :: "streamlit \<Rightarrow> credentials \<Rightarrow> gate" where
  "check_password st f =
     (if password_correct st then
        \<lparr> state = st, prompted = False, errors = [], ending = Return True \<rparr>
      else if submit_btn f then
        (case secrets st of
           Unreadable e \<Rightarrow>
             \<lparr> state = st, prompted = True, errors = [Login_failure e], ending = Return False \<rparr>
         | Secrets None \<Rightarrow>
             \<lparr> state = st, prompted = True, errors = [No_such_user], ending = Return False \<rparr>
         | Secrets (Some passwords) \<Rightarrow>
             (case passwords (username f) of
                None \<Rightarrow>
                  \<lparr> state = st, prompted = True, errors = [No_such_user], ending = Return False \<rparr>
              | Some p \<Rightarrow>
                  if password f = p then
                    \<lparr> state = st\<lparr>session_state := (session_state st)(''password_correct'' \<mapsto> True)\<rparr>,
                      prompted = True, errors = [], ending = Rerun \<rparr>
                  else
                    \<lparr> state = st, prompted = True, errors = [Wrong_password],
                      ending = Return False \<rparr>))
      else \<lparr> state = st, prompted = True, errors = [], ending = Return False \<rparr>)"

text \<open>
  The runs of one session: the script runs once for each interaction, each run starting
  from the state the run before left.
\<close>

fun session_runs :: "streamlit \<Rightarrow> credentials list \<Rightarrow> gate list" where
  "session_runs st [] = []"
| "session_runs st (f # fs) = check_password st f # session_runs (state (check_password st f)) fs"

definition demo_store :: streamlit where
  "demo_store = \<lparr> session_state = Map.empty,
                  secrets = Secrets (Some [''alice'' \<mapsto> ''s3cret'']) \<rparr>"

section \<open>Data acquisition\<close>

text \<open>
  The provider call \<open>fred.get_series(series_id, observation_start=start_date)\<close> either
  returns the observations or raises; every failure of the provider, of the network or of
  the identifier is a Python \<open>Exception\<close>, an \<open>error\<close> here.
\<close>

type_synonym provider = "string \<Rightarrow> date \<Rightarrow> error + series"

text \<open>
  \<open>sort_index()\<close> orders the observations by date, and \<open>ffill()\<close> replaces an absent value
  by the value before it, carried forward from the last present one. Observations of
  one date keep their order here; the provider gives one observation for a date.
\<close>

definition sort_index :: "series \<Rightarrow> series" where
  "sort_index s = sort_key fst s"

fun ffill_from :: "cell \<Rightarrow> series \<Rightarrow> series" where
  "ffill_from prev [] = []"
| "ffill_from prev ((d, c) # xs) =
     (let c' = (if isna c then prev else c) in (d, c') # ffill_from c' xs)"

definition ffill :: "series \<Rightarrow> series" where
  "ffill s = ffill_from None s"

text \<open>The warning of line 162: it names the series and quotes the exception.\<close>

datatype notice = Fetch_failed string error

text \<open>The body of the \<open>try\<close>, lines 155 to 160.\<close>

definition fetch_body :: "provider \<Rightarrow> string \<Rightarrow> date \<Rightarrow> error + series" where
  "fetch_body fred series_id start_date =
     bind_err (fred series_id start_date) (\<lambda>data.
       if length data > 0 then Inr (ffill (sort_index data)) else Inr [])"

text \<open>
  \<open>fetch_series_with_ffill(series_id, start_date, name)\<close>, lines 152 to 163, with the
  warnings it emits. The handler of line 161 takes every exception of the body. The cache
  decorator of line 151 belongs to the Streamlit runtime and is not part of the function.
\<close>

definition fetch_series_with_ffill ::
    "provider \<Rightarrow> string \<Rightarrow> date \<Rightarrow> string \<Rightarrow> error + (series \<times> notice list)" where
  "fetch_series_with_ffill fred series_id start_date name =
     (case fetch_body fred series_id start_date of
        Inr data \<Rightarrow> Inr (data, [])
      | Inl e \<Rightarrow> Inr ([], [Fetch_failed (if name \<noteq> [] then name else series_id) e]))"

text \<open>The latest present value of a list of cells, if it has one.\<close>

definition last_known :: "cell list \<Rightarrow> cell" where
  "last_known cs =
     (let present = filter (\<lambda>c. \<not> isna c) cs in if present = [] then None else last present)"

definition failing_provider :: provider where
  "failing_provider series_id start_date = Inl (ProviderError ''Bad Request'')"

definition unsorted_provider :: provider where
  "unsorted_provider series_id start_date =
     Inr [(3, None), (1, None), (4, Some 2.5), (2, Some 1.5), (5, None)]"

section \<open>Master dataset builder\<close>

text \<open>
  \<open>series_dict\<close> is a Python dictionary from names to Series, here the list of its items
  in insertion order. \<open>series_dict[name]\<close> raises KeyError for a name it does not have.
\<close>

definition dict_getitem :: "(string \<times> series) list \<Rightarrow> string \<Rightarrow> error + series" where
  "dict_getitem series_dict name =
     (case map_of series_dict name of None \<Rightarrow> Inl (KeyError name) | Some s \<Rightarrow> Inr s)"

text \<open>\<open>pd.DataFrame({'DGS10': base})\<close>: one row for each observation of \<open>base\<close>.\<close>

definition new_frame :: "series \<Rightarrow> dataframe" where
  "new_frame base =
     \<lparr> columns = [''DGS10''],
       rows = map (\<lambda>(d, c). (d, (\<lambda>name. None)(''DGS10'' := c))) base \<rparr>"

text \<open>\<open>df.index\<close>\<close>

definition index :: "dataframe \<Rightarrow> date list" where
  "index df = map fst (rows df)"

text \<open>
  \<open>s.reindex(target, method='ffill')\<close> gives, for each date of \<open>target\<close>, the value that
  \<open>s\<close> has at its last date not after it, and an absent value when \<open>s\<close> has no such date;
  it looks at the dates of \<open>s\<close> only, so an absent value of \<open>s\<close> stays absent. pandas
  needs the index of \<open>s\<close> in order and without duplicates for this and raises ValueError
  otherwise. The series of this pipeline are in increasing date order with one observation
  for a date; the model takes every other index as the ValueError case.
\<close>

definition asof :: "series \<Rightarrow> date \<Rightarrow> cell" where
  "asof s d = (case filter (\<lambda>(k, c). k \<le> d) s of [] \<Rightarrow> None | x # xs \<Rightarrow> snd (last (x # xs)))"

definition reindex_ffill :: "series \<Rightarrow> date list \<Rightarrow> error + cell list" where
  "reindex_ffill s target =
     (if sorted_wrt (<) (map fst s) then Inr (map (asof s) target) else Inl ValueError)"

text \<open>
  \<open>df[name] = values\<close> for values that are aligned with the rows of \<open>df\<close>: a new column
  goes to the end of the column list, an existing one is overwritten in place.
\<close>

definition setitem :: "dataframe \<Rightarrow> string \<Rightarrow> cell list \<Rightarrow> dataframe" where
  "setitem df name values =
     \<lparr> columns = (if name \<in> set (columns df) then columns df else columns df @ [name]),
       rows = map (\<lambda>((d, r), c). (d, r(name := c))) (zip (rows df) values) \<rparr>"

text \<open>\<open>df[name]\<close>: the cells of a column in row order.\<close>

definition column :: "dataframe \<Rightarrow> string \<Rightarrow> error + cell list" where
  "column df name =
     (if name \<in> set (columns df) then Inr (map (\<lambda>(d, r). r name) (rows df))
      else Inl (KeyError name))"

text \<open>
  Subtraction of two cells of one row, absent when either is absent, and the cell that
  \<open>a.fillna(b)\<close> leaves in a row: the cell of \<open>a\<close>, or the cell of \<open>b\<close> where that of \<open>a\<close> is
  absent. Both columns of each operation come from the same table, so pandas pairs their
  cells row by row.
\<close>

definition sub_cells :: "cell \<Rightarrow> cell \<Rightarrow> cell" where
  "sub_cells a b = (case a of None \<Rightarrow> None
     | Some x \<Rightarrow> (case b of None \<Rightarrow> None | Some y \<Rightarrow> Some (x - y)))"

definition series_sub :: "cell list \<Rightarrow> cell list \<Rightarrow> cell list" where
  "series_sub a b = map2 sub_cells a b"

definition coalesce :: "cell \<Rightarrow> cell \<Rightarrow> cell" where
  "coalesce a b = (if isna a then b else a)"

definition fillna :: "cell list \<Rightarrow> cell list \<Rightarrow> cell list" where
  "fillna a b = map2 coalesce a b"

text \<open>\<open>df.dropna(subset=[name])\<close>\<close>

definition dropna_subset :: "dataframe \<Rightarrow> string \<Rightarrow> error + dataframe" where
  "dropna_subset df name =
     (if name \<in> set (columns df)
      then Inr (df\<lparr>rows := filter (\<lambda>(d, r). \<not> isna (r name)) (rows df)\<rparr>)
      else Inl (KeyError name))"

text \<open>The loop of lines 196 to 199 over the items of \<open>series_dict\<close>.\<close>

fun reindex_all :: "dataframe \<Rightarrow> (string \<times> series) list \<Rightarrow> error + dataframe" where
  "reindex_all df [] = Inr df"
| "reindex_all df ((name, s) # items) =
     (if name = ''DGS10'' then reindex_all df items
      else bind_err (reindex_ffill s (index df)) (\<lambda>values.
             reindex_all (setitem df name values) items))"

text \<open>
  \<open>build_master_df(series_dict)\<close>, lines 191 to 208, in two parts: the table as it stands
  after line 203, before the coalesced column is written, and the whole function.
\<close>

definition before_coalesce :: "(string \<times> series) list \<Rightarrow> error + dataframe" where
  "before_coalesce series_dict =
     bind_err (dict_getitem series_dict ''DGS10'') (\<lambda>base.
     bind_err (reindex_all (new_frame base) series_dict) (\<lambda>df.
     bind_err (dict_getitem series_dict ''T10Y2Y'') (\<lambda>t10y2y.
     bind_err (reindex_ffill t10y2y (index df)) (\<lambda>direct.
     let df = setitem df ''YIELD_CURVE_DIRECT'' direct in
     bind_err (column df ''DGS10'') (\<lambda>dgs10.
     bind_err (column df ''DGS2'') (\<lambda>dgs2.
     Inr (setitem df ''YIELD_CURVE_CALC'' (series_sub dgs10 dgs2))))))))"

definition build_master_df :: "(string \<times> series) list \<Rightarrow> error + dataframe" where
  "build_master_df series_dict =
     bind_err (before_coalesce series_dict) (\<lambda>df.
     bind_err (column df ''YIELD_CURVE_DIRECT'') (\<lambda>direct.
     bind_err (column df ''YIELD_CURVE_CALC'') (\<lambda>calc.
     let df = setitem df ''YIELD_CURVE'' (fillna direct calc) in
     bind_err (column df ''DGS10'') (\<lambda>dgs10.
     bind_err (column df ''FEDFUNDS'') (\<lambda>fedfunds.
     let df = setitem df ''RATE_GAP'' (series_sub dgs10 fedfunds) in
     bind_err (column df ''DGS2'') (\<lambda>dgs2.
     bind_err (column df ''EFFR'') (\<lambda>effr.
     let df = setitem df ''POLICY_SPREAD'' (series_sub dgs2 effr) in
     dropna_subset df ''DGS10'')))))))"

text \<open>
  Synthetic series on the dates 1 to 3: the direct spread is absent on date 2 only, where
  the 10-year and the 2-year yield are both present, and the 10-year yield is absent on
  date 3.
\<close>

definition synthetic :: "(string \<times> series) list" where
  "synthetic =
     [(''DGS10'', [(1, Some 4), (2, Some 4.25), (3, None)]),
      (''DGS2'', [(1, Some 3.5), (2, Some 3.75), (3, Some 3.5)]),
      (''T10Y2Y'', [(1, Some 0.5), (2, None), (3, Some 1)]),
      (''FEDFUNDS'', [(1, Some 3)]),
      (''EFFR'', [(2, Some 3.25)])]"

text \<open>
  What lines 204 to 206 do to one row of the table: they write the coalesced yield curve,
  the rate gap and the policy spread, each from cells that the row already has.
\<close>

definition finish_row :: "row \<Rightarrow> row" where
  "finish_row r =
     r(''YIELD_CURVE'' := coalesce (r ''YIELD_CURVE_DIRECT'') (r ''YIELD_CURVE_CALC''),
       ''RATE_GAP'' := sub_cells (r ''DGS10'') (r ''FEDFUNDS''),
       ''POLICY_SPREAD'' := sub_cells (r ''DGS2'') (r ''EFFR''))"

section \<open>Properties of the risk score\<close>

lemmas spec_rule_defs =
  spec_rules_def spec_rule_curve_def spec_rule_yield_def spec_rule_spread_def
  spec_rule_gap_def spec_rule_card_def spec_rule_cre_def spec_rule_auto_def

lemma apply_rule_curve:
  "score_yield_curve v t = (fst t + fst (spec_rule_curve v), snd t @ snd (spec_rule_curve v))"
  by (simp add: score_yield_curve_def spec_rule_curve_def bump_def)

lemma apply_rule_yield:
  "score_dgs10 v t = (fst t + fst (spec_rule_yield v), snd t @ snd (spec_rule_yield v))"
  by (simp add: score_dgs10_def spec_rule_yield_def bump_def)

lemma apply_rule_spread:
  "score_hy_spread v t = (fst t + fst (spec_rule_spread v), snd t @ snd (spec_rule_spread v))"
  by (simp add: score_hy_spread_def spec_rule_spread_def bump_def)

lemma apply_rule_gap:
  "score_rate_gap v t = (fst t + fst (spec_rule_gap v), snd t @ snd (spec_rule_gap v))"
  by (simp add: score_rate_gap_def spec_rule_gap_def bump_def)

lemma map_filter_as_filter:
  "map Some (List.map_filter f xs) = filter (\<lambda>c. \<not> isna c) (map f xs)"
  by (induction xs) (auto simp: isna_def split: option.splits)

lemma latest_present_dropna:
  "name \<in> set (columns df) \<Longrightarrow>
   latest_present df name =
     (if column_dropna df name = [] then None else Some (last (column_dropna df name)))"
proof -
  assume c: "name \<in> set (columns df)"
  let ?xs = "column_dropna df name"
  have m: "filter (\<lambda>c. \<not> isna c) (map (\<lambda>dr. snd dr name) (rows df)) = map Some ?xs"
    by (simp add: column_dropna_def map_filter_as_filter case_prod_unfold)
  show ?thesis
    unfolding latest_present_def m using c by (simp add: last_map)
qed

lemma apply_rule_card:
  "score_cc_delinq df t =
     (fst t + fst (spec_rule_card (latest_present df ''CC_DELINQ'')),
      snd t @ snd (spec_rule_card (latest_present df ''CC_DELINQ'')))"
  by (cases "''CC_DELINQ'' \<in> set (columns df)")
     (simp_all add: score_cc_delinq_def spec_rule_card_def bump_def Let_def fgt_def
        latest_present_dropna, simp add: latest_present_def)

lemma apply_rule_cre:
  "score_cre_delinq df t =
     (fst t + fst (spec_rule_cre (latest_present df ''CRE_DELINQ_ALL'')),
      snd t @ snd (spec_rule_cre (latest_present df ''CRE_DELINQ_ALL'')))"
  by (cases "''CRE_DELINQ_ALL'' \<in> set (columns df)")
     (simp_all add: score_cre_delinq_def spec_rule_cre_def bump_def Let_def fgt_def
        latest_present_dropna, simp add: latest_present_def)

lemma apply_rule_auto:
  "score_auto_delinq df t =
     (fst t + fst (spec_rule_auto (latest_present df ''AUTO_DELINQ'')),
      snd t @ snd (spec_rule_auto (latest_present df ''AUTO_DELINQ'')))"
  by (cases "''AUTO_DELINQ'' \<in> set (columns df)")
     (simp_all add: score_auto_delinq_def spec_rule_auto_def bump_def Let_def fgt_def
        latest_present_dropna, simp add: latest_present_def)

lemmas apply_rules =
  apply_rule_curve apply_rule_yield apply_rule_spread apply_rule_gap
  apply_rule_card apply_rule_cre apply_rule_auto

lemma bind_err_Inr_iff: "(bind_err m f = Inr y) = (\<exists>x. m = Inr x \<and> f x = Inr y)"
  by (cases m) (simp_all add: bind_err_def)

lemma assess_closed_form:
  assumes "rows df = rs @ [(d, r)]" and "has_scored_columns df"
  shows "assess_macro_risk df =
           Inr \<lparr> score = sum_list (map fst (spec_rules df r)),
                 level = fst (risk_level (sum_list (map fst (spec_rules df r)))),
                 color = snd (risk_level (sum_list (map fst (spec_rules df r)))),
                 warnings = concat (map snd (spec_rules df r)),
                 latest = r \<rparr>"
proof -
  have l: "iloc_last df = Inr r"
    using assms(1) by (simp add: iloc_last_def)
  have g: "getitem df r ''YIELD_CURVE'' = Inr (r ''YIELD_CURVE'')"
    "getitem df r ''DGS10'' = Inr (r ''DGS10'')"
    "getitem df r ''HY_SPREAD'' = Inr (r ''HY_SPREAD'')"
    "getitem df r ''RATE_GAP'' = Inr (r ''RATE_GAP'')"
    using assms(2) by (simp_all add: getitem_def has_scored_columns_def)
  show ?thesis
    by (simp add: assess_macro_risk_def bind_err_def l g Let_def apply_rules spec_rules_def add.assoc)
qed

lemma example_df_assess:
  "assess_macro_risk example_df =
     Inr \<lparr> score = 10, level = CRITICAL_RISK, color = ''darkred'',
           warnings = [Curve_inverted, Yield_high, Spread_spike, Gap_excessive],
           latest = example_latest \<rparr>"
proof -
  have r: "rows example_df = [] @ [(0, example_latest)]"
    by (simp add: example_df_def)
  have c: "has_scored_columns example_df"
    by (simp add: has_scored_columns_def example_df_def)
  have v: "example_latest ''YIELD_CURVE'' = Some (- 0.1)" "example_latest ''DGS10'' = Some 4.6"
    "example_latest ''HY_SPREAD'' = Some 5.2" "example_latest ''RATE_GAP'' = Some 1.2"
    by (simp_all add: example_latest_def)
  have p: "latest_present example_df ''CC_DELINQ'' = None"
    "latest_present example_df ''CRE_DELINQ_ALL'' = None"
    "latest_present example_df ''AUTO_DELINQ'' = None"
    by (simp_all add: latest_present_def example_df_def example_latest_def isna_def)
  show ?thesis
    unfolding assess_closed_form [OF r c]
    by (simp add: spec_rules_def v p spec_rule_curve_def spec_rule_yield_def spec_rule_spread_def
        spec_rule_gap_def spec_rule_card_def spec_rule_cre_def spec_rule_auto_def flt_def fgt_def
        risk_level_def)
qed

text \<open>
  C1. On a table with at least one row and the four scored columns, \<open>assess_macro_risk\<close>
  returns a result whose score is the sum of the increments of the seven rules, taken on
  the latest row and on the histories of the three delinquency columns, and whose warning
  list is the warnings of the triggered rules in rule order. For the latest row with
  YIELD_CURVE = -0.1, DGS10 = 4.6, HY_SPREAD = 5.2 and RATE_GAP = 1.2 and no delinquency
  data the score is 10 and the warnings are exactly curve, yield, spread, gap.
\<close>

theorem assess_macro_risk_sum_of_rules:
  assumes "rows df = rs @ [(d, r)]" and "has_scored_columns df"
  shows "(\<exists>info. assess_macro_risk df = Inr info
            \<and> score info = sum_list (map fst (spec_rules df r))
            \<and> warnings info = concat (map snd (spec_rules df r))
            \<and> latest info = r)
         \<and> (\<exists>info. assess_macro_risk example_df = Inr info
            \<and> score info = 10
            \<and> warnings info = [Curve_inverted, Yield_high, Spread_spike, Gap_excessive])"
  by (simp add: assess_closed_form [OF assms] example_df_assess)

theorem assess_macro_risk_sum_of_rules_witness:
  "\<exists>info. assess_macro_risk two_row_df = Inr info
      \<and> score info = 7
      \<and> warnings info = [Curve_flattening, Yield_rising, Spread_widening, Card_above_5]"
proof -
  have r: "rows two_row_df = [(0, (\<lambda>name. None)(''CC_DELINQ'' := Some 5.5))] @
      [(1, (\<lambda>name. None)(''YIELD_CURVE'' := Some 0.2, ''DGS10'' := Some 4.2,
                                    ''HY_SPREAD'' := Some 4.6, ''RATE_GAP'' := None))]"
    by (simp add: two_row_df_def)
  have c: "has_scored_columns two_row_df"
    by (simp add: has_scored_columns_def two_row_df_def)
  have p: "latest_present two_row_df ''CC_DELINQ'' = Some 5.5"
    "latest_present two_row_df ''CRE_DELINQ_ALL'' = None"
    "latest_present two_row_df ''AUTO_DELINQ'' = None"
    by (simp_all add: latest_present_def two_row_df_def isna_def)
  show ?thesis
    using assess_macro_risk_sum_of_rules [OF r c]
    by (auto simp: spec_rule_defs p flt_def fgt_def)
qed

lemma assess_level_of_score:
  assumes "assess_macro_risk df = Inr info"
  shows "level info = fst (risk_level (score info)) \<and> color info = snd (risk_level (score info))"
proof -
  from assms obtain t where "info = \<lparr> score = fst t, level = fst (risk_level (fst t)),
       color = snd (risk_level (fst t)), warnings = snd t, latest = latest info \<rparr>"
    unfolding assess_macro_risk_def bind_err_Inr_iff Let_def by fastforce
  then show ?thesis
    by (metis risk_info.select_convs(1,2,3))
qed

lemma risk_level_bands:
  "(fst (risk_level s) = CRITICAL_RISK) = (s \<ge> 10)
   \<and> (fst (risk_level s) = HIGH_RISK) = (7 \<le> s \<and> s < 10)
   \<and> (fst (risk_level s) = MEDIUM_RISK) = (4 \<le> s \<and> s < 7)
   \<and> (fst (risk_level s) = LOW_RISK) = (s < 4)"
  by (simp add: risk_level_def)

lemma risk_level_color:
  "snd (risk_level s) =
        (case fst (risk_level s) of CRITICAL_RISK \<Rightarrow> ''darkred'' | HIGH_RISK \<Rightarrow> ''red''
         | MEDIUM_RISK \<Rightarrow> ''orange'' | LOW_RISK \<Rightarrow> ''green'')"
  by (simp add: risk_level_def)

text \<open>
  C2. For every integer score the level is CRITICAL exactly from 10 up, HIGH exactly from
  7 to 9, MEDIUM exactly from 4 to 6 and LOW below 4, with the colours darkred, red,
  orange and green in that order; the level and the colour that \<open>assess_macro_risk\<close>
  returns are those of the score it returns.
\<close>

theorem severity_of_score:
  "(fst (risk_level s) = CRITICAL_RISK) = (s \<ge> 10)
   \<and> (fst (risk_level s) = HIGH_RISK) = (7 \<le> s \<and> s < 10)
   \<and> (fst (risk_level s) = MEDIUM_RISK) = (4 \<le> s \<and> s < 7)
   \<and> (fst (risk_level s) = LOW_RISK) = (s < 4)
   \<and> snd (risk_level s) =
        (case fst (risk_level s) of CRITICAL_RISK \<Rightarrow> ''darkred'' | HIGH_RISK \<Rightarrow> ''red''
         | MEDIUM_RISK \<Rightarrow> ''orange'' | LOW_RISK \<Rightarrow> ''green'')
   \<and> (assess_macro_risk df = Inr info \<longrightarrow>
        level info = fst (risk_level (score info)) \<and> color info = snd (risk_level (score info)))"
  using risk_level_bands [of s] risk_level_color [of s] assess_level_of_score [of df info]
  by blast

theorem severity_of_score_witness:
  "fst (risk_level 12) = CRITICAL_RISK \<and> snd (risk_level 12) = ''darkred''
   \<and> fst (risk_level 7) = HIGH_RISK \<and> snd (risk_level 7) = ''red''
   \<and> fst (risk_level 4) = MEDIUM_RISK \<and> snd (risk_level 4) = ''orange''
   \<and> fst (risk_level 3) = LOW_RISK \<and> snd (risk_level 3) = ''green''
   \<and> (\<exists>info. assess_macro_risk example_df = Inr info \<and> score info = 10
         \<and> level info = CRITICAL_RISK \<and> color info = ''darkred'')"
proof -
  obtain info where i: "assess_macro_risk example_df = Inr info" and s: "score info = 10"
    using example_df_assess by simp
  have a: "fst (risk_level 12) = CRITICAL_RISK \<and> snd (risk_level 12) = ''darkred''"
    using severity_of_score [of 12 example_df info] by simp
  have b: "fst (risk_level 7) = HIGH_RISK \<and> snd (risk_level 7) = ''red''"
    using severity_of_score [of 7 example_df info] by simp
  have c: "fst (risk_level 4) = MEDIUM_RISK \<and> snd (risk_level 4) = ''orange''"
    using severity_of_score [of 4 example_df info] by simp
  have d: "fst (risk_level 3) = LOW_RISK \<and> snd (risk_level 3) = ''green''"
    using severity_of_score [of 3 example_df info] by simp
  have e: "level info = CRITICAL_RISK \<and> color info = ''darkred''"
    using severity_of_score [of 10 example_df info] i s by simp
  show ?thesis using a b c d e i s by blast
qed

lemma spec_rule_absent:
  "spec_rule_curve None = (0, [])" "spec_rule_yield None = (0, [])"
  "spec_rule_spread None = (0, [])" "spec_rule_gap None = (0, [])"
  by (simp_all add: spec_rule_defs flt_def fgt_def)

lemma spec_rule_blank:
  "fst (spec_rule_curve (if b then None else v)) \<le> fst (spec_rule_curve v)"
  "subseq (snd (spec_rule_curve (if b then None else v))) (snd (spec_rule_curve v))"
  "fst (spec_rule_yield (if b then None else v)) \<le> fst (spec_rule_yield v)"
  "subseq (snd (spec_rule_yield (if b then None else v))) (snd (spec_rule_yield v))"
  "fst (spec_rule_spread (if b then None else v)) \<le> fst (spec_rule_spread v)"
  "subseq (snd (spec_rule_spread (if b then None else v))) (snd (spec_rule_spread v))"
  "fst (spec_rule_gap (if b then None else v)) \<le> fst (spec_rule_gap v)"
  "subseq (snd (spec_rule_gap (if b then None else v))) (snd (spec_rule_gap v))"
  by (simp_all add: spec_rule_defs flt_def fgt_def)

lemma latest_present_blank:
  assumes "rows df = rs @ [(d, r)]" and "name \<notin> S"
  shows "latest_present (df\<lparr>rows := rs @ [(d, blank S r)]\<rparr>) name = latest_present df name"
  using assms by (simp add: latest_present_def blank_def)

lemma blank_lowers:
  assumes r: "rows df = rs @ [(d, r)]" and c: "has_scored_columns df"
    and S: "S \<subseteq> {''YIELD_CURVE'', ''DGS10'', ''HY_SPREAD'', ''RATE_GAP''}"
  shows "sum_list (map fst (spec_rules (df\<lparr>rows := rs @ [(d, blank S r)]\<rparr>) (blank S r)))
           \<le> sum_list (map fst (spec_rules df r))"
    and "subseq (concat (map snd (spec_rules (df\<lparr>rows := rs @ [(d, blank S r)]\<rparr>) (blank S r))))
           (concat (map snd (spec_rules df r)))"
proof -
  let ?df = "df\<lparr>rows := rs @ [(d, blank S r)]\<rparr>"
  have n: "''CC_DELINQ'' \<notin> S" "''CRE_DELINQ_ALL'' \<notin> S" "''AUTO_DELINQ'' \<notin> S"
    using S by auto
  have p: "latest_present ?df ''CC_DELINQ'' = latest_present df ''CC_DELINQ''"
    "latest_present ?df ''CRE_DELINQ_ALL'' = latest_present df ''CRE_DELINQ_ALL''"
    "latest_present ?df ''AUTO_DELINQ'' = latest_present df ''AUTO_DELINQ''"
    using n by (simp_all add: latest_present_blank [OF r])
  have b: "\<And>name. blank S r name = (if name \<in> S then None else r name)"
    by (simp add: blank_def)
  show "sum_list (map fst (spec_rules ?df (blank S r))) \<le> sum_list (map fst (spec_rules df r))"
    unfolding spec_rules_def p b
    by (simp add: add_mono spec_rule_blank split del: if_split)
  show "subseq (concat (map snd (spec_rules ?df (blank S r)))) (concat (map snd (spec_rules df r)))"
    unfolding spec_rules_def p b
    by (simp add: list_emb_append_mono spec_rule_blank split del: if_split)
qed

lemma has_scored_columns_rows_update:
  "has_scored_columns (df\<lparr>rows := x\<rparr>) = has_scored_columns df"
  by (simp add: has_scored_columns_def)

text \<open>
  C10. Every comparison with an absent value is false. When the latest row has an absent
  YIELD_CURVE, DGS10, HY_SPREAD or RATE_GAP, the rule of that column adds nothing: the
  score and the warnings are those of the six other rules. Making any of these four
  latest values absent never raises the score and only removes warnings.
\<close>

theorem absent_latest_value_adds_nothing:
  assumes "rows df = rs @ [(d, r)]" and "has_scored_columns df"
    and "S \<subseteq> {''YIELD_CURVE'', ''DGS10'', ''HY_SPREAD'', ''RATE_GAP''}"
  shows "\<not> flt None t \<and> \<not> fgt None t \<and> \<not> fge None t
    \<and> (\<exists>info. assess_macro_risk df = Inr info
        \<and> (r ''YIELD_CURVE'' = None \<longrightarrow>
              score info = sum_list (map fst (without_rule 0 (spec_rules df r)))
              \<and> warnings info = concat (map snd (without_rule 0 (spec_rules df r))))
        \<and> (r ''DGS10'' = None \<longrightarrow>
              score info = sum_list (map fst (without_rule 1 (spec_rules df r)))
              \<and> warnings info = concat (map snd (without_rule 1 (spec_rules df r))))
        \<and> (r ''HY_SPREAD'' = None \<longrightarrow>
              score info = sum_list (map fst (without_rule 2 (spec_rules df r)))
              \<and> warnings info = concat (map snd (without_rule 2 (spec_rules df r))))
        \<and> (r ''RATE_GAP'' = None \<longrightarrow>
              score info = sum_list (map fst (without_rule 3 (spec_rules df r)))
              \<and> warnings info = concat (map snd (without_rule 3 (spec_rules df r))))
        \<and> (\<exists>info'. assess_macro_risk (df\<lparr>rows := rs @ [(d, blank S r)]\<rparr>) = Inr info'
              \<and> score info' \<le> score info
              \<and> subseq (warnings info') (warnings info)))"
proof -
  let ?df = "df\<lparr>rows := rs @ [(d, blank S r)]\<rparr>"
  have cmp: "\<not> flt None t \<and> \<not> fgt None t \<and> \<not> fge None t"
    by (simp add: flt_def fgt_def fge_def)
  have w: "without_rule 0 (spec_rules df r) = tl (spec_rules df r)"
    "without_rule 1 (spec_rules df r) = hd (spec_rules df r) # drop 2 (spec_rules df r)"
    "without_rule 2 (spec_rules df r) = take 2 (spec_rules df r) @ drop 3 (spec_rules df r)"
    "without_rule 3 (spec_rules df r) = take 3 (spec_rules df r) @ drop 4 (spec_rules df r)"
    by (simp_all add: without_rule_def spec_rules_def numeral_2_eq_2 numeral_3_eq_3 eval_nat_numeral)
  have a: "assess_macro_risk df =
           Inr \<lparr> score = sum_list (map fst (spec_rules df r)),
                 level = fst (risk_level (sum_list (map fst (spec_rules df r)))),
                 color = snd (risk_level (sum_list (map fst (spec_rules df r)))),
                 warnings = concat (map snd (spec_rules df r)),
                 latest = r \<rparr>"
    by (rule assess_closed_form [OF assms(1,2)])
  have r': "rows ?df = rs @ [(d, blank S r)]" by simp
  have c': "has_scored_columns ?df"
    using assms(2) by (simp add: has_scored_columns_rows_update)
  note a' = assess_closed_form [OF r' c']
  have y: "r ''YIELD_CURVE'' = None \<Longrightarrow>
      sum_list (map fst (spec_rules df r)) = sum_list (map fst (without_rule 0 (spec_rules df r)))
      \<and> concat (map snd (spec_rules df r)) = concat (map snd (without_rule 0 (spec_rules df r)))"
    unfolding w by (simp add: spec_rules_def spec_rule_absent)
  have g: "r ''DGS10'' = None \<Longrightarrow>
      sum_list (map fst (spec_rules df r)) = sum_list (map fst (without_rule 1 (spec_rules df r)))
      \<and> concat (map snd (spec_rules df r)) = concat (map snd (without_rule 1 (spec_rules df r)))"
    unfolding w by (simp add: spec_rules_def spec_rule_absent)
  have h: "r ''HY_SPREAD'' = None \<Longrightarrow>
      sum_list (map fst (spec_rules df r)) = sum_list (map fst (without_rule 2 (spec_rules df r)))
      \<and> concat (map snd (spec_rules df r)) = concat (map snd (without_rule 2 (spec_rules df r)))"
    unfolding w by (simp add: spec_rules_def spec_rule_absent)
  have q: "r ''RATE_GAP'' = None \<Longrightarrow>
      sum_list (map fst (spec_rules df r)) = sum_list (map fst (without_rule 3 (spec_rules df r)))
      \<and> concat (map snd (spec_rules df r)) = concat (map snd (without_rule 3 (spec_rules df r)))"
    unfolding w by (simp add: spec_rules_def spec_rule_absent)
  note m = blank_lowers [OF assms]
  show ?thesis
    unfolding a a' using cmp y g h q m by simp
qed

theorem absent_latest_value_adds_nothing_witness:
  "\<exists>info. assess_macro_risk two_row_df = Inr info
      \<and> score info = 7
      \<and> warnings info = [Curve_flattening, Yield_rising, Spread_widening, Card_above_5]
      \<and> (\<exists>info'. assess_macro_risk
                     (two_row_df\<lparr>rows := [(0, (\<lambda>name. None)(''CC_DELINQ'' := Some 5.5))] @
                        [(1, blank {''DGS10'', ''HY_SPREAD''}
                              ((\<lambda>name. None)(''YIELD_CURVE'' := Some 0.2, ''DGS10'' := Some 4.2,
                                    ''HY_SPREAD'' := Some 4.6, ''RATE_GAP'' := None)))]\<rparr>) = Inr info'
            \<and> score info' \<le> 7)"
proof -
  have r: "rows two_row_df = [(0, (\<lambda>name. None)(''CC_DELINQ'' := Some 5.5))] @
      [(1, (\<lambda>name. None)(''YIELD_CURVE'' := Some 0.2, ''DGS10'' := Some 4.2,
                                    ''HY_SPREAD'' := Some 4.6, ''RATE_GAP'' := None))]"
    by (simp add: two_row_df_def)
  have c: "has_scored_columns two_row_df"
    by (simp add: has_scored_columns_def two_row_df_def)
  have s: "{''DGS10'', ''HY_SPREAD''} \<subseteq> {''YIELD_CURVE'', ''DGS10'', ''HY_SPREAD'', ''RATE_GAP''}"
    by simp
  have p: "latest_present two_row_df ''CC_DELINQ'' = Some 5.5"
    "latest_present two_row_df ''CRE_DELINQ_ALL'' = None"
    "latest_present two_row_df ''AUTO_DELINQ'' = None"
    by (simp_all add: latest_present_def two_row_df_def isna_def)
  have v: "sum_list (map fst (without_rule 3 (spec_rules two_row_df
             ((\<lambda>name. None)(''YIELD_CURVE'' := Some 0.2, ''DGS10'' := Some 4.2,
                                    ''HY_SPREAD'' := Some 4.6, ''RATE_GAP'' := None))))) = 7"
    "concat (map snd (without_rule 3 (spec_rules two_row_df
             ((\<lambda>name. None)(''YIELD_CURVE'' := Some 0.2, ''DGS10'' := Some 4.2,
                                    ''HY_SPREAD'' := Some 4.6, ''RATE_GAP'' := None))))) =
       [Curve_flattening, Yield_rising, Spread_widening, Card_above_5]"
    by (simp_all add: without_rule_def spec_rule_defs p flt_def fgt_def eval_nat_numeral)
  show ?thesis
    using absent_latest_value_adds_nothing [OF r c s, of 0] v
    by auto
qed

section \<open>Properties of the scenario table\<close>

text \<open>
  C3. \<open>determine_scenario\<close> sends every pair of a yield-curve value and a policy-spread
  value to exactly one of the identifiers 1 to 4 by the two-by-two table: inverted and not
  easing is 1, inverted and easing is 2, not inverted and not easing is 3, not inverted and
  easing is 4. Both tests are strict less-than against zero, so a present value is not
  easing exactly when it is at least 0, and a value of exactly 0 is neither inverted nor
  easing. Curve -0.2 with spread 0.3 gives 1, curve 0.4 with spread -0.1 gives 4, and a
  curve of 0.0 is not inverted.
\<close>

theorem determine_scenario_table:
  "determine_scenario yc ps \<in> {1, 2, 3, 4}
   \<and> (determine_scenario yc ps = 1) = (flt yc 0 \<and> \<not> flt ps 0)
   \<and> (determine_scenario yc ps = 2) = (flt yc 0 \<and> flt ps 0)
   \<and> (determine_scenario yc ps = 3) = (\<not> flt yc 0 \<and> \<not> flt ps 0)
   \<and> (determine_scenario yc ps = 4) = (\<not> flt yc 0 \<and> flt ps 0)
   \<and> determine_scenario (Some y) (Some p) =
         (if y < 0 then (if p \<ge> 0 then 1 else 2) else (if p \<ge> 0 then 3 else 4))
   \<and> determine_scenario (Some (- 0.2)) (Some 0.3) = 1
   \<and> determine_scenario (Some 0.4) (Some (- 0.1)) = 4
   \<and> \<not> flt (Some 0.0) 0
   \<and> determine_scenario (Some 0.0) (Some p) = (if p \<ge> 0 then 3 else 4)"
  by (auto simp: determine_scenario_def flt_def Let_def split: option.splits)

theorem determine_scenario_table_witness:
  "determine_scenario (Some (- 0.2)) (Some 0.3) = 1
   \<and> determine_scenario (Some (- 0.2)) (Some (- 0.3)) = 2
   \<and> determine_scenario (Some 0) (Some 0) = 3
   \<and> determine_scenario (Some 0.4) (Some (- 0.1)) = 4
   \<and> determine_scenario None None = 3"
  using determine_scenario_table [of "Some (- 0.2)" "Some 0.3" 0 0]
    determine_scenario_table [of "Some (- 0.2)" "Some (- 0.3)" 0 0]
    determine_scenario_table [of "Some 0" "Some 0" 0 0]
    determine_scenario_table [of "Some 0.4" "Some (- 0.1)" 0 0]
    determine_scenario_table [of None None 0 0]
  by (simp add: flt_def)

section \<open>Properties of inversion detection\<close>

lemma scan_loop_spec:
  "finish final (scan_loop (acc, False, st) xs) = acc @ map (\<lambda>(a, b). (Some a, b)) (spec_outside final (present xs))"
  "finish final (scan_loop (acc, True, Some a) xs) = acc @ map (\<lambda>(a, b). (Some a, b)) (spec_inside a final (present xs))"
proof (induction xs arbitrary: acc st a)
  case Nil
  { case 1 show ?case by (simp add: finish_def) }
  { case 2 show ?case by (simp add: finish_def) }
next
  case (Cons x xs)
  obtain d c where x: "x = (d, c)" by (cases x)
  { case 1 show ?case
      by (cases c) (simp_all add: x isna_def flt_def fge_def Cons.IH) }
  { case 2 show ?case
      by (cases c) (simp_all add: x isna_def flt_def fge_def Cons.IH not_le) }
qed

lemma find_inversion_periods_spec:
  "find_inversion_periods s = Inr (map (\<lambda>(a, b). (Some a, b)) (spec_inversions s))"
proof (cases "s = []")
  case True
  then show ?thesis by (simp add: find_inversion_periods_def spec_inversions_def)
next
  case False
  obtain i b st where l: "scan_loop ([], False, None) s = (i, b, st)"
    by (cases "scan_loop ([], False, None) s")
  have "finish (fst (last s)) (scan_loop ([], False, None) s) = map (\<lambda>(a, b). (Some a, b)) (spec_inversions s)"
    using scan_loop_spec(1) [of "fst (last s)" "[]" None s] by (simp add: spec_inversions_def)
  with l False show ?thesis
    by (cases b) (simp_all add: find_inversion_periods_def finish_def)
qed

lemma example_inversions:
  "find_inversion_periods example_series = Inr [(Some 2, 4), (Some 5, 5)]"
  by (simp add: find_inversion_periods_def example_series_def isna_def flt_def fge_def)

lemma present_dates: "set (map fst (present s)) \<subseteq> set (map fst s)"
  by (induction s rule: present.induct) auto

lemma sorted_present: "sorted (map fst s) \<Longrightarrow> sorted (map fst (present s))"
  using present_dates by (induction s rule: present.induct) fastforce+

lemma endpoints_simps:
  "endpoints [] = []" "endpoints ((a, b) # ps) = a # b # endpoints ps"
  by (simp_all add: endpoints_def)

lemma spec_endpoints_bounds:
  "(\<forall>x \<in> set xs. lo \<le> fst x) \<Longrightarrow> lo \<le> final \<Longrightarrow>
     (\<forall>e \<in> set (endpoints (spec_outside final xs)). lo \<le> e)"
  "(\<forall>x \<in> set xs. lo \<le> fst x) \<Longrightarrow> lo \<le> final \<Longrightarrow> lo \<le> opened \<Longrightarrow>
     (\<forall>e \<in> set (endpoints (spec_inside opened final xs)). lo \<le> e)"
proof (induction final xs and opened final xs rule: spec_outside_spec_inside.induct)
  case (1 final)
  show ?case by (simp add: endpoints_simps)
next
  case (2 final d v xs)
  then show ?case by simp
next
  case (3 opened final)
  then show ?case by (simp add: endpoints_simps)
next
  case (4 opened final d v xs)
  then show ?case by (simp add: endpoints_simps)
qed

lemma spec_endpoints_sorted:
  "sorted (map fst xs) \<Longrightarrow> (\<forall>x \<in> set xs. fst x \<le> final) \<Longrightarrow>
     sorted (endpoints (spec_outside final xs))"
  "sorted (map fst xs) \<Longrightarrow> (\<forall>x \<in> set xs. fst x \<le> final) \<Longrightarrow>
     (\<forall>x \<in> set xs. opened \<le> fst x) \<Longrightarrow> opened \<le> final \<Longrightarrow>
     sorted (endpoints (spec_inside opened final xs))"
proof (induction final xs and opened final xs rule: spec_outside_spec_inside.induct)
  case (1 final)
  show ?case by (simp add: endpoints_simps)
next
  case (2 final d v xs)
  then show ?case by simp
next
  case (3 opened final)
  then show ?case by (simp add: endpoints_simps)
next
  case (4 opened final d v xs)
  show ?case
  proof (cases "v \<ge> 0")
    case True
    have s: "sorted (endpoints (spec_outside final xs))"
      using 4 True by simp
    have "\<forall>x \<in> set xs. d \<le> fst x" "d \<le> final"
      using 4(3,4) by simp_all
    then have b: "\<forall>e \<in> set (endpoints (spec_outside final xs)). d \<le> e"
      by (rule spec_endpoints_bounds(1))
    have o: "opened \<le> d" using 4(5) by simp
    have "\<forall>e \<in> set (endpoints (spec_outside final xs)). opened \<le> e"
      using b o by (meson order_trans)
    with s b o show ?thesis
      using True by (simp add: endpoints_simps)
  next
    case False
    with 4 show ?thesis by simp
  qed
qed

lemma spec_inversions_sorted:
  assumes "sorted (map fst s)"
  shows "sorted (endpoints (spec_inversions s))"
proof (cases "s = []")
  case True
  then show ?thesis by (simp add: spec_inversions_def endpoints_simps)
next
  case False
  then have "s = butlast s @ [last s]" by simp
  then have "map fst s = map fst (butlast s) @ [fst (last s)]"
    by (metis list.simps(8,9) map_append)
  with assms have "\<forall>x \<in> set (map fst s). x \<le> fst (last s)"
    by (simp add: sorted_append)
  with present_dates have "\<forall>x \<in> set (present s). fst x \<le> fst (last s)"
    by fastforce
  with sorted_present [OF assms] have "sorted (endpoints (spec_outside (fst (last s)) (present s)))"
    by (rule spec_endpoints_sorted(1))
  with False show ?thesis by (simp add: spec_inversions_def)
qed

text \<open>
  C4. \<open>find_inversion_periods\<close> never fails and returns exactly the intervals of the
  specification's reading: it skips absent values, opens an interval when a strictly
  negative value is seen outside an interval, closes it at the next value that is at least
  0, and closes an interval still open at the end at the last date of the series. On a
  series in date order the start and end dates come out in chronological order. The values
  0.5, -0.1, -0.2, 0.3, -0.05 on the dates 1 to 5 give exactly (2, 4) and (5, 5).
\<close>

theorem find_inversion_periods_intervals:
  "find_inversion_periods s = Inr (map (\<lambda>(a, b). (Some a, b)) (spec_inversions s))
   \<and> (sorted (map fst s) \<longrightarrow> sorted (endpoints (spec_inversions s)))
   \<and> find_inversion_periods example_series = Inr [(Some 2, 4), (Some 5, 5)]"
  using find_inversion_periods_spec [of s] spec_inversions_sorted [of s] example_inversions
  by simp

theorem find_inversion_periods_intervals_witness:
  "sorted (map fst [(10, None), (11, Some (- 0.5)), (12, Some 0), (13, Some (- 1)), (14 :: date, None :: cell)])
   \<and> find_inversion_periods [(10, None), (11, Some (- 0.5)), (12, Some 0), (13, Some (- 1)), (14, None)]
       = Inr [(Some 11, 12), (Some 13, 14)]
   \<and> sorted (endpoints (spec_inversions
        [(10, None), (11, Some (- 0.5)), (12, Some 0), (13, Some (- 1)), (14, None)]))"
  using find_inversion_periods_intervals
    [of "[(10, None), (11, Some (- 0.5)), (12, Some 0), (13, Some (- 1)), (14, None)]"]
  by (simp add: spec_inversions_def)

section \<open>Properties of section extraction\<close>
















section \<open>Properties of the authentication gate\<close>

lemma check_password_secrets: "secrets (state (check_password st f)) = secrets st"
  by (simp add: check_password_def split: secrets_store.splits option.splits)

lemma check_password_authenticated:
  "password_correct st \<Longrightarrow>
     check_password st f = \<lparr> state = st, prompted = False, errors = [], ending = Return True \<rparr>"
  by (simp add: check_password_def)

lemma session_runs_authenticated:
  "password_correct st \<Longrightarrow>
     session_runs st fs =
       replicate (length fs) \<lparr> state = st, prompted = False, errors = [], ending = Return True \<rparr>"
  by (induction fs) (simp_all add: check_password_authenticated)

text \<open>
  C8. \<open>check_password\<close> never changes the credential store. From the unauthenticated
  state, a submission with a user name that the credential mapping does not have reports
  the no-such-user error and leaves the session as it was; a user name it has with a
  password that does not match reports the incorrect-password error and leaves the
  session as it was; a matching pair sets the session flag and ends the run with a rerun,
  after which the check returns true without the form. Once the flag is set, every later
  check of the session returns true without showing the form.
\<close>

theorem check_password_state_machine:
  "secrets (state (check_password st f)) = secrets st
   \<and> (\<not> password_correct st \<and> submit_btn f \<and> secrets st = Secrets (Some passwords) \<longrightarrow>
        (passwords (username f) = None \<longrightarrow>
           check_password st f =
             \<lparr> state = st, prompted = True, errors = [No_such_user], ending = Return False \<rparr>)
        \<and> (\<forall>p. passwords (username f) = Some p \<and> password f \<noteq> p \<longrightarrow>
           check_password st f =
             \<lparr> state = st, prompted = True, errors = [Wrong_password], ending = Return False \<rparr>)
        \<and> (passwords (username f) = Some (password f) \<longrightarrow>
           ending (check_password st f) = Rerun
           \<and> errors (check_password st f) = []
           \<and> password_correct (state (check_password st f))
           \<and> check_password (state (check_password st f)) f' =
               \<lparr> state = state (check_password st f), prompted = False, errors = [],
                 ending = Return True \<rparr>))
   \<and> (password_correct st \<longrightarrow>
        session_runs st fs =
          replicate (length fs) \<lparr> state = st, prompted = False, errors = [], ending = Return True \<rparr>)"
  using session_runs_authenticated [of st fs] check_password_secrets [of st f]
  by (auto simp: check_password_def password_correct_def)

theorem check_password_state_machine_witness:
  "\<not> password_correct demo_store
   \<and> check_password demo_store \<lparr> username = ''bob'', password = ''x'', submit_btn = True \<rparr> =
        \<lparr> state = demo_store, prompted = True, errors = [No_such_user], ending = Return False \<rparr>
   \<and> check_password demo_store \<lparr> username = ''alice'', password = ''x'', submit_btn = True \<rparr> =
        \<lparr> state = demo_store, prompted = True, errors = [Wrong_password], ending = Return False \<rparr>
   \<and> ending (check_password demo_store
          \<lparr> username = ''alice'', password = ''s3cret'', submit_btn = True \<rparr>) = Rerun
   \<and> password_correct (state (check_password demo_store
          \<lparr> username = ''alice'', password = ''s3cret'', submit_btn = True \<rparr>))
   \<and> map ending (session_runs (state (check_password demo_store
          \<lparr> username = ''alice'', password = ''s3cret'', submit_btn = True \<rparr>))
          [\<lparr> username = '''', password = '''', submit_btn = False \<rparr>,
           \<lparr> username = ''bob'', password = ''x'', submit_btn = True \<rparr>]) = [Return True, Return True]"
proof -
  let ?bob = "\<lparr> username = ''bob'', password = ''x'', submit_btn = True \<rparr>"
  let ?bad = "\<lparr> username = ''alice'', password = ''x'', submit_btn = True \<rparr>"
  let ?ok = "\<lparr> username = ''alice'', password = ''s3cret'', submit_btn = True \<rparr>"
  let ?idle = "\<lparr> username = '''', password = '''', submit_btn = False \<rparr>"
  have n: "\<not> password_correct demo_store"
    by (simp add: password_correct_def demo_store_def)
  have s: "secrets demo_store = Secrets (Some [''alice'' \<mapsto> ''s3cret''])"
    by (simp add: demo_store_def)
  have a: "check_password demo_store ?bob =
        \<lparr> state = demo_store, prompted = True, errors = [No_such_user], ending = Return False \<rparr>"
    using check_password_state_machine [of demo_store ?bob "[''alice'' \<mapsto> ''s3cret'']" ?bob "[]"] n s
    by simp
  have b: "check_password demo_store ?bad =
        \<lparr> state = demo_store, prompted = True, errors = [Wrong_password], ending = Return False \<rparr>"
    using check_password_state_machine [of demo_store ?bad "[''alice'' \<mapsto> ''s3cret'']" ?bob "[]"] n s
    by simp
  have c: "ending (check_password demo_store ?ok) = Rerun
      \<and> password_correct (state (check_password demo_store ?ok))"
    using check_password_state_machine [of demo_store ?ok "[''alice'' \<mapsto> ''s3cret'']" ?bob "[]"] n s
    by simp
  have "session_runs (state (check_password demo_store ?ok)) [?idle, ?bob] =
      replicate (length [?idle, ?bob])
        \<lparr> state = state (check_password demo_store ?ok), prompted = False, errors = [],
          ending = Return True \<rparr>"
    using check_password_state_machine [of "state (check_password demo_store ?ok)" ?ok
        "[''alice'' \<mapsto> ''s3cret'']" ?bob "[?idle, ?bob]"] c
    by blast
  then have "map ending (session_runs (state (check_password demo_store ?ok)) [?idle, ?bob])
      = map ending (replicate (length [?idle, ?bob])
        \<lparr> state = state (check_password demo_store ?ok), prompted = False, errors = [],
          ending = Return True \<rparr>)"
    by (rule arg_cong)
  also have "\<dots> = [Return True, Return True]"
    by simp
  finally have d: "map ending (session_runs (state (check_password demo_store ?ok)) [?idle, ?bob])
      = [Return True, Return True]" .
  show ?thesis using n a b c d by blast
qed

section \<open>Properties of data acquisition\<close>

lemma ffill_from_dates: "map fst (ffill_from p xs) = map fst xs"
  by (induction p xs rule: ffill_from.induct) (simp_all add: Let_def)

lemma last_present:
  "filter (\<lambda>c. \<not> isna c) cs \<noteq> [] \<Longrightarrow> \<not> isna (last (filter (\<lambda>c. \<not> isna c) cs))"
  using last_in_set [of "filter (\<lambda>c. \<not> isna c) cs"] by simp

lemma last_known_Cons:
  "last_known (c # cs) = (if isna (last_known cs) then c else last_known cs)"
  using last_present [of cs]
  by (cases "filter (\<lambda>c. \<not> isna c) cs = []")
     (simp_all add: last_known_def Let_def isna_def split: option.splits)

lemma last_known_Nil: "last_known [] = None"
  by (simp add: last_known_def)

lemma ffill_from_nth:
  "i < length xs \<Longrightarrow>
     snd (ffill_from p xs ! i) =
       (if isna (last_known (take (Suc i) (map snd xs))) then p
        else last_known (take (Suc i) (map snd xs)))"
proof (induction p xs arbitrary: i rule: ffill_from.induct)
  case (1 prev)
  then show ?case by simp
next
  case (2 prev d c xs)
  show ?case
  proof (cases i)
    case 0
    then show ?thesis by (simp add: Let_def last_known_Cons last_known_Nil isna_def)
  next
    case (Suc j)
    with 2 show ?thesis
      by (simp add: Let_def last_known_Cons [of c])
  qed
qed

lemma ffill_nth:
  "i < length s \<Longrightarrow> snd (ffill s ! i) = last_known (take (Suc i) (map snd s))"
  by (simp add: ffill_def ffill_from_nth isna_def split: option.splits)

lemma fetch_success:
  assumes "fred series_id start_date = Inr data"
  shows "fetch_series_with_ffill fred series_id start_date name = Inr (ffill (sort_index data), [])"
  using assms
  by (cases "data = []")
     (simp_all add: fetch_series_with_ffill_def fetch_body_def bind_err_def ffill_def sort_index_def)

lemma fetch_sorted:
  "sorted (map fst (ffill (sort_index data)))"
  "mset (map fst (ffill (sort_index data))) = mset (map fst data)"
  "length (ffill (sort_index data)) = length data"
proof -
  have d: "map fst (ffill (sort_index data)) = map fst (sort_key fst data)"
    by (simp add: ffill_def sort_index_def ffill_from_dates)
  show "sorted (map fst (ffill (sort_index data)))"
    unfolding d by (rule sorted_sort_key)
  show "mset (map fst (ffill (sort_index data))) = mset (map fst data)"
    unfolding d by simp
  show "length (ffill (sort_index data)) = length data"
    using arg_cong [OF d, of length] by simp
qed

text \<open>
  C7. \<open>fetch_series_with_ffill\<close> always returns and never passes an exception on. When
  the provider call fails it returns the empty series with one warning that names the
  series (the display name, or the identifier when no name is given). When the call
  succeeds it returns, without a warning, the observations in date order with every cell
  holding the latest present value up to its date; an empty provider result gives the
  empty series.
\<close>

theorem fetch_series_with_ffill_never_raises:
  "(\<exists>out ns. fetch_series_with_ffill fred series_id start_date name = Inr (out, ns))
   \<and> (\<forall>e. fred series_id start_date = Inl e \<longrightarrow>
         fetch_series_with_ffill fred series_id start_date name =
           Inr ([], [Fetch_failed (if name \<noteq> [] then name else series_id) e]))
   \<and> (\<forall>data. fred series_id start_date = Inr data \<longrightarrow>
         (\<exists>out. fetch_series_with_ffill fred series_id start_date name = Inr (out, [])
            \<and> sorted (map fst out)
            \<and> mset (map fst out) = mset (map fst data)
            \<and> (\<forall>i < length out.
                  snd (out ! i) = last_known (take (Suc i) (map snd (sort_index data))))
            \<and> (data = [] \<longrightarrow> out = [])))"
proof (cases "fred series_id start_date")
  case (Inl e)
  then show ?thesis
    by (simp add: fetch_series_with_ffill_def fetch_body_def bind_err_def)
next
  case (Inr data)
  have n: "\<forall>i < length (ffill (sort_index data)).
      snd (ffill (sort_index data) ! i) = last_known (take (Suc i) (map snd (sort_index data)))"
    using fetch_sorted(3) [of data] by (simp add: ffill_nth sort_index_def)
  have e: "data = [] \<longrightarrow> ffill (sort_index data) = []"
    by (simp add: ffill_def sort_index_def)
  show ?thesis
    using Inr fetch_success [of fred series_id start_date data name] fetch_sorted(1,2) [of data] n e
    by simp
qed

theorem fetch_series_with_ffill_never_raises_witness:
  "fetch_series_with_ffill failing_provider ''DGS10'' 0 ''10y'' =
      Inr ([], [Fetch_failed ''10y'' (ProviderError ''Bad Request'')])
   \<and> fetch_series_with_ffill failing_provider ''DGS10'' 0 [] =
      Inr ([], [Fetch_failed ''DGS10'' (ProviderError ''Bad Request'')])
   \<and> (\<exists>out. fetch_series_with_ffill unsorted_provider ''DGS2'' 0 ''2y'' = Inr (out, [])
        \<and> sorted (map fst out)
        \<and> snd (out ! 2) = Some 1.5)"
proof -
  have a: "fetch_series_with_ffill failing_provider ''DGS10'' 0 ''10y'' =
      Inr ([], [Fetch_failed ''10y'' (ProviderError ''Bad Request'')])"
    using fetch_series_with_ffill_never_raises [of failing_provider "''DGS10''" 0 "''10y''"]
    by (simp add: failing_provider_def)
  have b: "fetch_series_with_ffill failing_provider ''DGS10'' 0 [] =
      Inr ([], [Fetch_failed ''DGS10'' (ProviderError ''Bad Request'')])"
    using fetch_series_with_ffill_never_raises [of failing_provider "''DGS10''" 0 "[]"]
    by (simp add: failing_provider_def)
  let ?data = "[(3, None), (1, None), (4, Some 2.5), (2, Some 1.5), (5 :: date, None :: cell)]"
  have u: "unsorted_provider ''DGS2'' 0 = Inr ?data"
    by (simp add: unsorted_provider_def)
  have k: "last_known (take (Suc 2) (map snd (sort_index ?data))) = Some 1.5"
    by (simp add: sort_index_def last_known_def isna_def)
  from fetch_series_with_ffill_never_raises [of unsorted_provider "''DGS2''" 0 "''2y''"] u
  obtain out where o: "fetch_series_with_ffill unsorted_provider ''DGS2'' 0 ''2y'' = Inr (out, [])"
    "sorted (map fst out)" "mset (map fst out) = mset (map fst ?data)"
    "\<forall>i < length out. snd (out ! i) = last_known (take (Suc i) (map snd (sort_index ?data)))"
    by auto
  from o(3) have "size (mset (map fst out)) = 5" by simp
  then have "2 < length out" by simp
  with o(4) k have "snd (out ! 2) = Some 1.5" by simp
  with a b o(1,2) show ?thesis by blast
qed

section \<open>Properties of the master dataset builder\<close>

lemma zip_with_map: "zip xs (map f xs) = map (\<lambda>x. (x, f x)) xs"
  by (induction xs) simp_all

lemma setitem_rows_map:
  "rows (setitem df name (map (\<lambda>(d, r). g d r) (rows df))) =
     map (\<lambda>(d, r). (d, r(name := g d r))) (rows df)"
  by (simp add: setitem_def zip_with_map case_prod_unfold)

lemma column_Inr:
  "column df name = Inr v \<Longrightarrow> v = map (\<lambda>(d, r). r name) (rows df) \<and> name \<in> set (columns df)"
  by (simp add: column_def split: if_splits)

lemma series_sub_rows:
  "series_sub (map (\<lambda>(d, r). r a) xs) (map (\<lambda>(d, r). r b) xs) =
     map (\<lambda>(d, r). sub_cells (r a) (r b)) xs"
  by (induction xs) (simp_all add: series_sub_def case_prod_unfold)

lemma fillna_rows:
  "fillna (map (\<lambda>(d, r). r a) xs) (map (\<lambda>(d, r). r b) xs) =
     map (\<lambda>(d, r). coalesce (r a) (r b)) xs"
  by (induction xs) (simp_all add: fillna_def case_prod_unfold)

lemma reindex_ffill_Inr:
  "reindex_ffill s (index df) = Inr v \<Longrightarrow> v = map (\<lambda>(d, r). asof s d) (rows df)"
  by (auto simp: reindex_ffill_def index_def case_prod_unfold comp_def split: if_splits)

lemma before_coalesce_rows:
  assumes "before_coalesce series_dict = Inr df3"
  shows "\<exists>(df1 :: dataframe) t. dict_getitem series_dict ''T10Y2Y'' = Inr t
    \<and> rows df3 = map (\<lambda>(d, r). (d, r(''YIELD_CURVE_DIRECT'' := asof t d,
                        ''YIELD_CURVE_CALC'' := sub_cells (r ''DGS10'') (r ''DGS2'')))) (rows df1)"
proof -
  from assms obtain df1 t direct dgs10 dgs2 where
    t: "dict_getitem series_dict ''T10Y2Y'' = Inr t"
    and d: "reindex_ffill t (index df1) = Inr direct"
    and a: "column (setitem df1 ''YIELD_CURVE_DIRECT'' direct) ''DGS10'' = Inr dgs10"
    and b: "column (setitem df1 ''YIELD_CURVE_DIRECT'' direct) ''DGS2'' = Inr dgs2"
    and e: "df3 = setitem (setitem df1 ''YIELD_CURVE_DIRECT'' direct) ''YIELD_CURVE_CALC''
              (series_sub dgs10 dgs2)"
    unfolding before_coalesce_def bind_err_Inr_iff Let_def by blast
  let ?df2 = "setitem df1 ''YIELD_CURVE_DIRECT'' direct"
  have r2: "rows ?df2 = map (\<lambda>(d, r). (d, r(''YIELD_CURVE_DIRECT'' := asof t d))) (rows df1)"
    unfolding reindex_ffill_Inr [OF d] by (rule setitem_rows_map)
  have s: "series_sub dgs10 dgs2 = map (\<lambda>(d, r). sub_cells (r ''DGS10'') (r ''DGS2'')) (rows ?df2)"
    using column_Inr [OF a] column_Inr [OF b] by (simp add: series_sub_rows)
  have "rows df3 = map (\<lambda>(d, r). (d, r(''YIELD_CURVE_CALC'' := sub_cells (r ''DGS10'') (r ''DGS2''))))
          (rows ?df2)"
    unfolding e s by (rule setitem_rows_map)
  then have "rows df3 = map (\<lambda>(d, r). (d, r(''YIELD_CURVE_DIRECT'' := asof t d,
                        ''YIELD_CURVE_CALC'' := sub_cells (r ''DGS10'') (r ''DGS2'')))) (rows df1)"
    unfolding r2 by (simp add: case_prod_unfold comp_def)
  with t show ?thesis by blast
qed

lemma build_master_df_rows:
  assumes "build_master_df series_dict = Inr df"
  shows "\<exists>df3. before_coalesce series_dict = Inr df3
    \<and> rows df = map (\<lambda>(d, r). (d, finish_row r))
                 (filter (\<lambda>(d, r). \<not> isna (r ''DGS10'')) (rows df3))"
proof -
  from assms obtain df3 direct calc dgs10 fedfunds dgs2 effr where
    b: "before_coalesce series_dict = Inr df3"
    and c1: "column df3 ''YIELD_CURVE_DIRECT'' = Inr direct"
    and c2: "column df3 ''YIELD_CURVE_CALC'' = Inr calc"
    and c3: "column (setitem df3 ''YIELD_CURVE'' (fillna direct calc)) ''DGS10'' = Inr dgs10"
    and c4: "column (setitem df3 ''YIELD_CURVE'' (fillna direct calc)) ''FEDFUNDS'' = Inr fedfunds"
    and c5: "column (setitem (setitem df3 ''YIELD_CURVE'' (fillna direct calc)) ''RATE_GAP''
               (series_sub dgs10 fedfunds)) ''DGS2'' = Inr dgs2"
    and c6: "column (setitem (setitem df3 ''YIELD_CURVE'' (fillna direct calc)) ''RATE_GAP''
               (series_sub dgs10 fedfunds)) ''EFFR'' = Inr effr"
    and e: "dropna_subset (setitem (setitem (setitem df3 ''YIELD_CURVE'' (fillna direct calc))
               ''RATE_GAP'' (series_sub dgs10 fedfunds)) ''POLICY_SPREAD'' (series_sub dgs2 effr))
               ''DGS10'' = Inr df"
    unfolding build_master_df_def bind_err_Inr_iff Let_def by blast
  let ?df4 = "setitem df3 ''YIELD_CURVE'' (fillna direct calc)"
  let ?df5 = "setitem ?df4 ''RATE_GAP'' (series_sub dgs10 fedfunds)"
  let ?df6 = "setitem ?df5 ''POLICY_SPREAD'' (series_sub dgs2 effr)"
  have f: "fillna direct calc =
      map (\<lambda>(d, r). coalesce (r ''YIELD_CURVE_DIRECT'') (r ''YIELD_CURVE_CALC'')) (rows df3)"
    using column_Inr [OF c1] column_Inr [OF c2] by (simp add: fillna_rows)
  have r4: "rows ?df4 = map (\<lambda>(d, r). (d, r(''YIELD_CURVE'' :=
      coalesce (r ''YIELD_CURVE_DIRECT'') (r ''YIELD_CURVE_CALC'')))) (rows df3)"
    unfolding f by (rule setitem_rows_map)
  have g: "series_sub dgs10 fedfunds =
      map (\<lambda>(d, r). sub_cells (r ''DGS10'') (r ''FEDFUNDS'')) (rows ?df4)"
    using column_Inr [OF c3] column_Inr [OF c4] by (simp add: series_sub_rows)
  have r5: "rows ?df5 = map (\<lambda>(d, r). (d, r(''RATE_GAP'' :=
      sub_cells (r ''DGS10'') (r ''FEDFUNDS'')))) (rows ?df4)"
    unfolding g by (rule setitem_rows_map)
  have p: "series_sub dgs2 effr =
      map (\<lambda>(d, r). sub_cells (r ''DGS2'') (r ''EFFR'')) (rows ?df5)"
    using column_Inr [OF c5] column_Inr [OF c6] by (simp add: series_sub_rows)
  have r6: "rows ?df6 = map (\<lambda>(d, r). (d, r(''POLICY_SPREAD'' :=
      sub_cells (r ''DGS2'') (r ''EFFR'')))) (rows ?df5)"
    unfolding p by (rule setitem_rows_map)
  have r6': "rows ?df6 = map (\<lambda>(d, r). (d, finish_row r)) (rows df3)"
    unfolding r6 r5 r4 by (simp add: case_prod_unfold comp_def finish_row_def)
  have k: "finish_row r ''DGS10'' = r ''DGS10''" for r
    by (simp add: finish_row_def)
  from e have "rows df = filter (\<lambda>(d, r). \<not> isna (r ''DGS10'')) (rows ?df6)"
    by (auto simp: dropna_subset_def split: if_splits)
  then have "rows df = map (\<lambda>(d, r). (d, finish_row r))
                 (filter (\<lambda>(d, r). \<not> isna (r ''DGS10'')) (rows df3))"
    unfolding r6' by (simp add: filter_map comp_def case_prod_unfold k)
  with b show ?thesis by blast
qed

lemmas builder_eval =
  build_master_df_def before_coalesce_def bind_err_def dict_getitem_def new_frame_def index_def
  reindex_ffill_def asof_def setitem_def column_def series_sub_def fillna_def coalesce_def
  sub_cells_def dropna_subset_def isna_def Let_def

lemma synthetic_table:
  "\<exists>df. build_master_df synthetic = Inr df
     \<and> columns df = [''DGS10'', ''DGS2'', ''T10Y2Y'', ''FEDFUNDS'', ''EFFR'',
          ''YIELD_CURVE_DIRECT'', ''YIELD_CURVE_CALC'', ''YIELD_CURVE'', ''RATE_GAP'',
          ''POLICY_SPREAD'']
     \<and> map (\<lambda>(d, r). (d, map r (columns df))) (rows df) =
         [(1, [Some 4, Some 3.5, Some 0.5, Some 3, None, Some 0.5, Some 0.5, Some 0.5, Some 1, None]),
          (2, [Some 4.25, Some 3.75, None, Some 3, Some 3.25, None, Some 0.5, Some 0.5,
               Some 1.25, Some 0.5])]"
  by (simp add: synthetic_def builder_eval)

text \<open>
  C5. In every row of the table that \<open>build_master_df\<close> produces the 10-year yield is
  present (the rows where it is absent are dropped, the others kept), the direct column is
  the reported spread as of the row's date, the calculated column is the 10-year minus
  the 2-year yield, and the coalesced column is the direct value where it is present and
  the calculated difference where it is absent; so it is present whenever one of the two
  is. The fill writes the coalesced column only: apart from the three columns written
  after line 203, every cell of a row is the cell of the table as it stood before. On the
  synthetic series, where the direct spread is absent on date 2 only, the coalesced column
  holds the calculated 0.5 on that date and all other columns are unchanged.
\<close>

theorem build_master_df_coalesced_yield_curve:
  assumes "build_master_df series_dict = Inr df"
  shows "(\<exists>(df3 :: dataframe) t.
           before_coalesce series_dict = Inr df3
         \<and> dict_getitem series_dict ''T10Y2Y'' = Inr t
         \<and> rows df = map (\<lambda>(d, r). (d, finish_row r))
                        (filter (\<lambda>(d, r). \<not> isna (r ''DGS10'')) (rows df3))
         \<and> (\<forall>(d, r) \<in> set (rows df).
               \<not> isna (r ''DGS10'')
             \<and> r ''YIELD_CURVE_DIRECT'' = asof t d
             \<and> r ''YIELD_CURVE_CALC'' = sub_cells (r ''DGS10'') (r ''DGS2'')
             \<and> r ''YIELD_CURVE'' =
                 (if isna (r ''YIELD_CURVE_DIRECT'') then r ''YIELD_CURVE_CALC''
                  else r ''YIELD_CURVE_DIRECT'')
             \<and> (\<not> isna (r ''YIELD_CURVE_DIRECT'') \<or> \<not> isna (r ''YIELD_CURVE_CALC'')
                 \<longrightarrow> \<not> isna (r ''YIELD_CURVE''))))
       \<and> (\<forall>r name. name \<notin> {''YIELD_CURVE'', ''RATE_GAP'', ''POLICY_SPREAD''}
             \<longrightarrow> finish_row r name = r name)
       \<and> (\<exists>df. build_master_df synthetic = Inr df
            \<and> map (\<lambda>(d, r). (d, map r (columns df))) (rows df) =
         [(1, [Some 4, Some 3.5, Some 0.5, Some 3, None, Some 0.5, Some 0.5, Some 0.5, Some 1, None]),
          (2, [Some 4.25, Some 3.75, None, Some 3, Some 3.25, None, Some 0.5, Some 0.5,
               Some 1.25, Some 0.5])])"
proof -
  from build_master_df_rows [OF assms] obtain df3 where
    b: "before_coalesce series_dict = Inr df3"
    and r: "rows df = map (\<lambda>(d, r). (d, finish_row r))
                        (filter (\<lambda>(d, r). \<not> isna (r ''DGS10'')) (rows df3))"
    by blast
  from before_coalesce_rows [OF b] obtain df1 :: dataframe and t where
    t: "dict_getitem series_dict ''T10Y2Y'' = Inr t"
    and r3: "rows df3 = map (\<lambda>(d, r). (d, r(''YIELD_CURVE_DIRECT'' := asof t d,
                        ''YIELD_CURVE_CALC'' := sub_cells (r ''DGS10'') (r ''DGS2'')))) (rows df1)"
    by blast
  have rowwise: "\<forall>(d, r) \<in> set (rows df).
               \<not> isna (r ''DGS10'')
             \<and> r ''YIELD_CURVE_DIRECT'' = asof t d
             \<and> r ''YIELD_CURVE_CALC'' = sub_cells (r ''DGS10'') (r ''DGS2'')
             \<and> r ''YIELD_CURVE'' =
                 (if isna (r ''YIELD_CURVE_DIRECT'') then r ''YIELD_CURVE_CALC''
                  else r ''YIELD_CURVE_DIRECT'')
             \<and> (\<not> isna (r ''YIELD_CURVE_DIRECT'') \<or> \<not> isna (r ''YIELD_CURVE_CALC'')
                 \<longrightarrow> \<not> isna (r ''YIELD_CURVE''))"
    unfolding r r3 by (auto simp: finish_row_def coalesce_def)
  have other: "\<forall>r name. name \<notin> {''YIELD_CURVE'', ''RATE_GAP'', ''POLICY_SPREAD''}
             \<longrightarrow> finish_row r name = r name"
    by (simp add: finish_row_def)
  from synthetic_table obtain sdf where
    s1: "build_master_df synthetic = Inr sdf"
    and s2: "map (\<lambda>(d, r). (d, map r (columns sdf))) (rows sdf) =
         [(1, [Some 4, Some 3.5, Some 0.5, Some 3, None, Some 0.5, Some 0.5, Some 0.5, Some 1, None]),
          (2, [Some 4.25, Some 3.75, None, Some 3, Some 3.25, None, Some 0.5, Some 0.5,
               Some 1.25, Some 0.5])]"
    by (elim exE conjE)
  have ex: "\<exists>df. build_master_df synthetic = Inr df
            \<and> map (\<lambda>(d, r). (d, map r (columns df))) (rows df) =
         [(1, [Some 4, Some 3.5, Some 0.5, Some 3, None, Some 0.5, Some 0.5, Some 0.5, Some 1, None]),
          (2, [Some 4.25, Some 3.75, None, Some 3, Some 3.25, None, Some 0.5, Some 0.5,
               Some 1.25, Some 0.5])]"
    using s1 s2 by (intro exI [of _ sdf] conjI)
  from b t r rowwise have "\<exists>(df3 :: dataframe) t.
           before_coalesce series_dict = Inr df3
         \<and> dict_getitem series_dict ''T10Y2Y'' = Inr t
         \<and> rows df = map (\<lambda>(d, r). (d, finish_row r))
                        (filter (\<lambda>(d, r). \<not> isna (r ''DGS10'')) (rows df3))
         \<and> (\<forall>(d, r) \<in> set (rows df).
               \<not> isna (r ''DGS10'')
             \<and> r ''YIELD_CURVE_DIRECT'' = asof t d
             \<and> r ''YIELD_CURVE_CALC'' = sub_cells (r ''DGS10'') (r ''DGS2'')
             \<and> r ''YIELD_CURVE'' =
                 (if isna (r ''YIELD_CURVE_DIRECT'') then r ''YIELD_CURVE_CALC''
                  else r ''YIELD_CURVE_DIRECT'')
             \<and> (\<not> isna (r ''YIELD_CURVE_DIRECT'') \<or> \<not> isna (r ''YIELD_CURVE_CALC'')
                 \<longrightarrow> \<not> isna (r ''YIELD_CURVE'')))"
    by blast
  with other ex show ?thesis by (intro conjI)
qed

lemma synthetic_projections:
  "\<exists>df. build_master_df synthetic = Inr df
     \<and> map fst (rows df) = [1, 2]
     \<and> map (\<lambda>(d, r). r ''YIELD_CURVE_DIRECT'') (rows df) = [Some 0.5, None]
     \<and> map (\<lambda>(d, r). r ''YIELD_CURVE'') (rows df) = [Some 0.5, Some 0.5]"
  by (simp add: synthetic_def builder_eval)

theorem build_master_df_coalesced_yield_curve_witness:
  "\<exists>df. build_master_df synthetic = Inr df
     \<and> map fst (rows df) = [1, 2]
     \<and> map (\<lambda>(d, r). r ''YIELD_CURVE_DIRECT'') (rows df) = [Some 0.5, None]
     \<and> map (\<lambda>(d, r). r ''YIELD_CURVE'') (rows df) = [Some 0.5, Some 0.5]
     \<and> list_all (\<lambda>(d, r). \<not> isna (r ''DGS10'')
          \<and> r ''YIELD_CURVE_CALC'' = sub_cells (r ''DGS10'') (r ''DGS2'')) (rows df)"
proof -
  from synthetic_projections obtain df where
    b: "build_master_df synthetic = Inr df"
    and p: "map fst (rows df) = [1, 2]"
      "map (\<lambda>(d, r). r ''YIELD_CURVE_DIRECT'') (rows df) = [Some 0.5, None]"
      "map (\<lambda>(d, r). r ''YIELD_CURVE'') (rows df) = [Some 0.5, Some 0.5]"
    by (elim exE conjE)
  from build_master_df_coalesced_yield_curve [OF b, THEN conjunct1]
  obtain t where "\<forall>(d, r) \<in> set (rows df).
               \<not> isna (r ''DGS10'')
             \<and> r ''YIELD_CURVE_DIRECT'' = asof t d
             \<and> r ''YIELD_CURVE_CALC'' = sub_cells (r ''DGS10'') (r ''DGS2'')
             \<and> r ''YIELD_CURVE'' =
                 (if isna (r ''YIELD_CURVE_DIRECT'') then r ''YIELD_CURVE_CALC''
                  else r ''YIELD_CURVE_DIRECT'')
             \<and> (\<not> isna (r ''YIELD_CURVE_DIRECT'') \<or> \<not> isna (r ''YIELD_CURVE_CALC'')
                 \<longrightarrow> \<not> isna (r ''YIELD_CURVE''))"
    by (elim exE conjE)
  then have "list_all (\<lambda>(d, r). \<not> isna (r ''DGS10'')
          \<and> r ''YIELD_CURVE_CALC'' = sub_cells (r ''DGS10'') (r ''DGS2'')) (rows df)"
    unfolding list_all_iff by fast
  with b p show ?thesis by (intro exI [of _ df] conjI)
qed

end
